theory Spec2Isabelle
  imports
    Complex_Main
    "HOL-Library.Multiset"
    "HOL-Library.Sublist"
    "HOL-Library.Char_ord"
    "HOL-Library.List_Lexorder"
begin

section \<open>The channel scheduler of app.py\<close>

text \<open>
  The development embeds the scheduling core of \<^verbatim>\<open>app.py\<close>: the duration resolver
  \<^verbatim>\<open>get_duration\<close>, the directory scan \<^verbatim>\<open>get_channel_files\<close>, the seeded shuffle
  \<^verbatim>\<open>stable_shuffle\<close>, the playlist builder \<^verbatim>\<open>build_playlist\<close>, the start-up loop that
  fills \<^verbatim>\<open>PLAYLISTS\<close>, and the schedule engine \<^verbatim>\<open>get_now_playing\<close>.

  Conventions of the embedding.
  \<^item> The value of a Python float (a duration, a clock reading) is a rational; \<^verbatim>\<open>nan\<close>
    and \<^verbatim>\<open>inf\<close> are not modelled. \<open>get_now_playing\<close> adds and subtracts them
    exactly; \<open>get_now_playing_fp\<close> is the same function with the machine's rounded
    addition and subtraction as parameters. Python's unbounded integers are \<open>int\<close>.
  \<^item> Strings are byte strings; Python orders strings by code point, which for UTF-8
    is the byte-wise lexicographic order used here.
  \<^item> What the program reads from its environment is a parameter: the file system
    (a map from the path of a directory to the names it holds), the outcome of the
    \<^verbatim>\<open>ffprobe\<close> subprocess, Python's \<^verbatim>\<open>float\<close> parser, the two readings of
    \<^verbatim>\<open>time.time()\<close>, and the standard library's \<^verbatim>\<open>hashlib\<close> and \<^verbatim>\<open>random\<close>.
  \<^item> The hidden generator of the \<^verbatim>\<open>random\<close> module is process-wide state; it is
    passed in and returned explicitly.
  \<^item> An uncaught Python exception is the \<open>Inl\<close> branch of a sum.
\<close>

subsection \<open>Values of the configuration\<close>

text \<open>What \<^verbatim>\<open>json.load\<close> can put under a key of a channel object.\<close>

datatype json =
    JNull
  | JBool bool
  | JNum rat
  | JStr string
  | JArr "json list"
  | JObj "(string \<times> json) list"

text \<open>Python's truth value of such a value, as \<^verbatim>\<open>if v:\<close> tests it.\<close>

fun truthy :: "json \<Rightarrow> bool" where
  "truthy JNull = False"
| "truthy (JBool b) = b"
| "truthy (JNum n) = (n \<noteq> 0)"
| "truthy (JStr s) = (s \<noteq> [])"
| "truthy (JArr xs) = (xs \<noteq> [])"
| "truthy (JObj kvs) = (kvs \<noteq> [])"

text \<open>
  A channel object of \<^verbatim>\<open>channels.json\<close>. The keys \<^verbatim>\<open>id\<close>, \<^verbatim>\<open>name\<close> and \<^verbatim>\<open>path\<close>
  are read with \<^verbatim>\<open>channel[...]\<close> and are strings; \<^verbatim>\<open>rotation\<close> and \<^verbatim>\<open>commercials\<close>
  are read with \<^verbatim>\<open>channel.get\<close> and may be absent (\<open>None\<close>).
\<close>

record channel =
  ch_id :: string
  ch_name :: string
  ch_path :: string
  ch_rotation :: "json option"
  ch_commercials :: "json option"

text \<open>The Python exceptions the functions below can raise.\<close>

datatype py_error = ZeroDivisionError | ValueError | OSError

subsection \<open>Strings and paths\<close>

text \<open>\<^verbatim>\<open>str.strip()\<close>: the ASCII white space is removed at both ends.\<close>

definition is_space :: "char \<Rightarrow> bool" where
  "is_space c =
     (let n = (of_char c :: nat) in n = 32 \<or> (9 \<le> n \<and> n \<le> 13) \<or> (28 \<le> n \<and> n \<le> 31))"

definition strip :: "string \<Rightarrow> string" where
  "strip s = rev (dropWhile is_space (rev (dropWhile is_space s)))"

text \<open>\<^verbatim>\<open>str.lower()\<close> on the ASCII letters.\<close>

definition lower_char :: "char \<Rightarrow> char" where
  "lower_char c =
     (let n = (of_char c :: nat) in if 65 \<le> n \<and> n \<le> 90 then char_of (n + 32) else c)"

definition lower :: "string \<Rightarrow> string" where
  "lower s = map lower_char s"

definition VALID_EXTS :: "string list" where
  "VALID_EXTS = [''.mp4'', ''.m4v'', ''.mov'', ''.avi'', ''.mkv'']"

text \<open>The filter \<^verbatim>\<open>f.lower().endswith(VALID_EXTS)\<close> of both directory scans.\<close>

definition is_video :: "string \<Rightarrow> bool" where
  "is_video f = (\<exists>e \<in> set VALID_EXTS. suffix e (lower f))"

text \<open>\<^verbatim>\<open>os.path.join(a, b)\<close> of \<^verbatim>\<open>posixpath\<close>, for two components.\<close>

definition path_join :: "string \<Rightarrow> string \<Rightarrow> string" where
  "path_join a b =
     (if prefix ''/'' b then b
      else if a = [] \<or> suffix ''/'' a then a @ b
      else a @ ''/'' @ b)"

subsection \<open>Duration resolver\<close>

text \<open>
  What \<^verbatim>\<open>subprocess.run\<close> does for a file: it raises (the tool is missing, for
  example), or it returns, with the text the tool wrote to its standard output; a tool
  that fails writes nothing there.
\<close>

datatype probe_result = ProbeRaised | ProbeOutput string

text \<open>
  The \<^verbatim>\<open>try\<close> block of \<^verbatim>\<open>get_duration\<close>: \<^verbatim>\<open>subprocess.run\<close> may raise, and
  \<^verbatim>\<open>float(result.stdout.strip())\<close> raises \<^verbatim>\<open>ValueError\<close> on text that is not a
  number. \<open>py_float\<close> is Python's \<^verbatim>\<open>float\<close> on a string, \<open>None\<close> where it raises.
\<close>

definition probe_duration ::
  "(string \<Rightarrow> probe_result) \<Rightarrow> (string \<Rightarrow> rat option) \<Rightarrow> string \<Rightarrow> py_error + rat" where
  "probe_duration ffprobe py_float filepath =
     (case ffprobe filepath of
        ProbeRaised \<Rightarrow> Inl OSError
      | ProbeOutput out \<Rightarrow>
          (case py_float (strip out) of
             None \<Rightarrow> Inl ValueError
           | Some v \<Rightarrow> Inr v))"

text \<open>
  \<^verbatim>\<open>get_duration\<close>: \<^verbatim>\<open>except Exception\<close> turns every exception of the block into
  the fallback \<^verbatim>\<open>22 * 60\<close>. The \<^verbatim>\<open>lru_cache\<close> around the function is invisible as
  long as the probe is a function of the path, which it is here.
\<close>

definition get_duration ::
  "(string \<Rightarrow> probe_result) \<Rightarrow> (string \<Rightarrow> rat option) \<Rightarrow> string \<Rightarrow> rat" where
  "get_duration ffprobe py_float filepath =
     (case probe_duration ffprobe py_float filepath of
        Inl e \<Rightarrow> 22 * 60
      | Inr v \<Rightarrow> v)"

subsection \<open>Schedule engine\<close>

text \<open>\<^verbatim>\<open>START_TIME\<close>: 2025-01-01 00:00:00 UTC as a POSIX time stamp.\<close>

definition START_TIME :: rat where
  "START_TIME = 1735689600"

text \<open>\<^verbatim>\<open>int(x)\<close> on a float: truncation towards zero.\<close>

definition py_int :: "rat \<Rightarrow> int" where
  "py_int x = (if 0 \<le> x then \<lfloor>x\<rfloor> else \<lceil>x\<rceil>)"

text \<open>
  The loop \<^verbatim>\<open>for i, d in enumerate(durations)\<close> of \<^verbatim>\<open>get_now_playing\<close>: it stops
  at the first entry with \<^verbatim>\<open>offset < d\<close> and yields the index, that duration and
  the offset reached; \<open>None\<close> when the list is exhausted.
\<close>

fun find_current :: "rat list \<Rightarrow> nat \<Rightarrow> rat \<Rightarrow> (nat \<times> rat \<times> rat) option" where
  "find_current [] i offset = None"
| "find_current (d # ds) i offset =
     (if offset < d then Some (i, d, offset)
      else find_current ds (Suc i) (offset - d))"

text \<open>
  The result tuple \<^verbatim>\<open>(now_file, now_offset, next_file, start_time)\<close>. The last
  component is the instant handed to \<^verbatim>\<open>time.localtime\<close>; its formatting as a local
  time of day by \<^verbatim>\<open>time.strftime\<close> is not modelled.
\<close>

type_synonym now_playing = "string option \<times> int \<times> string option \<times> rat option"

text \<open>
  \<^verbatim>\<open>get_now_playing\<close>. \<open>now\<close> is the reading of \<^verbatim>\<open>time.time()\<close> that fixes
  \<^verbatim>\<open>elapsed\<close>, \<open>now'\<close> the later reading inside \<^verbatim>\<open>time.localtime\<close>. The modulo by
  \<^verbatim>\<open>int(total)\<close> raises when that is zero; nothing catches it.
\<close>

definition get_now_playing ::
  "(string \<rightharpoonup> string list) \<Rightarrow> (string \<Rightarrow> probe_result) \<Rightarrow> (string \<Rightarrow> rat option) \<Rightarrow>
   channel \<Rightarrow> rat \<Rightarrow> rat \<Rightarrow> py_error + now_playing" where
  "get_now_playing PLAYLISTS ffprobe py_float channel now now' =
     (let files = (case PLAYLISTS (ch_id channel) of None \<Rightarrow> [] | Some fs \<Rightarrow> fs) in
      if files = [] then Inr (None, 0, None, None)
      else
        let durations = map (get_duration ffprobe py_float) files;
            total = sum_list durations
        in
          if py_int total = 0 then Inl ZeroDivisionError
          else
            let elapsed = py_int (now - START_TIME) mod py_int total in
            (case find_current durations 0 (of_int elapsed) of
               Some (i, d, offset) \<Rightarrow>
                 let now_file = files ! i;
                     now_offset = py_int offset;
                     next_file =
                       (if length files > 1 then files ! ((i + 1) mod length files)
                        else now_file);
                     time_until_next = d - offset
                 in Inr (Some now_file, now_offset, Some next_file,
                         Some (now' + time_until_next))
             | None \<Rightarrow> Inr (Some (files ! 0), 0, Some (files ! 0), None)))"

subsection \<open>Schedule engine with rounded arithmetic\<close>

text \<open>
  The addition and subtraction of the machine's floats, on the rationals the floats
  denote: \<open>fadd F a b\<close> is what \<^verbatim>\<open>a + b\<close> evaluates to, \<open>fsub F a b\<close> what \<^verbatim>\<open>a - b\<close>
  evaluates to. An integer operand is converted first, which is exact below \<open>2^53\<close>.
\<close>

record float_ops =
  fadd :: "rat \<Rightarrow> rat \<Rightarrow> rat"
  fsub :: "rat \<Rightarrow> rat \<Rightarrow> rat"

text \<open>
  \<^verbatim>\<open>sum(durations)\<close>: the additions run from the left, starting at 0.
\<close>

definition float_sum :: "float_ops \<Rightarrow> rat list \<Rightarrow> rat" where
  "float_sum F xs = foldl (fadd F) 0 xs"

text \<open>
  The loop of \<^verbatim>\<open>get_now_playing\<close> with \<^verbatim>\<open>offset -= d\<close> as the machine computes it.
  The comparison \<^verbatim>\<open>offset < d\<close> is exact in Python, also between an integer and a
  float.
\<close>

fun find_current_fp ::
  "float_ops \<Rightarrow> rat list \<Rightarrow> nat \<Rightarrow> rat \<Rightarrow> (nat \<times> rat \<times> rat) option" where
  "find_current_fp F [] i offset = None"
| "find_current_fp F (d # ds) i offset =
     (if offset < d then Some (i, d, offset)
      else find_current_fp F ds (Suc i) (fsub F offset d))"

text \<open>
  \<^verbatim>\<open>get_now_playing\<close> with every float operation of the source rounded:
  \<^verbatim>\<open>sum(durations)\<close>, \<^verbatim>\<open>time.time() - START_TIME\<close>, \<^verbatim>\<open>offset -= d\<close>, \<^verbatim>\<open>d - offset\<close>
  and \<^verbatim>\<open>time.time() + time_until_next\<close>.
\<close>

definition get_now_playing_fp ::
  "float_ops \<Rightarrow> (string \<rightharpoonup> string list) \<Rightarrow> (string \<Rightarrow> probe_result) \<Rightarrow>
   (string \<Rightarrow> rat option) \<Rightarrow> channel \<Rightarrow> rat \<Rightarrow> rat \<Rightarrow> py_error + now_playing" where
  "get_now_playing_fp F PLAYLISTS ffprobe py_float channel now now' =
     (let files = (case PLAYLISTS (ch_id channel) of None \<Rightarrow> [] | Some fs \<Rightarrow> fs) in
      if files = [] then Inr (None, 0, None, None)
      else
        let durations = map (get_duration ffprobe py_float) files;
            total = float_sum F durations
        in
          if py_int total = 0 then Inl ZeroDivisionError
          else
            let elapsed = py_int (fsub F now START_TIME) mod py_int total in
            (case find_current_fp F durations 0 (of_int elapsed) of
               Some (i, d, offset) \<Rightarrow>
                 let now_file = files ! i;
                     now_offset = py_int offset;
                     next_file =
                       (if length files > 1 then files ! ((i + 1) mod length files)
                        else now_file);
                     time_until_next = fsub F d offset
                 in Inr (Some now_file, now_offset, Some next_file,
                         Some (fadd F now' time_until_next))
             | None \<Rightarrow> Inr (Some (files ! 0), 0, Some (files ! 0), None)))"

text \<open>
  What is used of the machine. A correctly rounded difference of \<open>a \<ge> b\<close> is not
  negative, which holds for IEEE 754 arithmetic. \<open>exact_on F durations elapsed\<close> says that
  on this playlist nothing is rounded: the sum of the durations is exact, and so is
  every subtraction \<^verbatim>\<open>offset -= d\<close> of the walk that starts at \<open>elapsed\<close>. That is the
  case when all durations are whole seconds, or multiples of one power of 1/2, of
  moderate size.
\<close>

definition fsub_sign :: "float_ops \<Rightarrow> bool" where
  "fsub_sign F \<longleftrightarrow> (\<forall>a b. b \<le> a \<longrightarrow> 0 \<le> fsub F a b)"

definition exact_on :: "float_ops \<Rightarrow> rat list \<Rightarrow> int \<Rightarrow> bool" where
  "exact_on F durations elapsed \<longleftrightarrow>
     float_sum F durations = sum_list durations \<and>
     (\<forall>j<length durations.
        fsub F (of_int elapsed - sum_list (take j durations)) (durations ! j) =
        of_int elapsed - sum_list (take (Suc j) durations))"

subsection \<open>Directory scan\<close>

text \<open>
  The file system as the scans see it: a path that exists maps to the names
  \<^verbatim>\<open>os.listdir\<close> returns for it, in the order it returns them; a path that does not
  exist maps to \<open>None\<close>. Both scans test \<^verbatim>\<open>os.path.exists\<close> before they list, so
  listing never meets a missing path. A path that exists is a directory that can be
  read: a regular file in the place of a folder and failures of the operating system
  are not modelled.
\<close>

type_synonym filesystem = "string \<rightharpoonup> string list"

definition get_channel_files :: "filesystem \<Rightarrow> channel \<Rightarrow> string list" where
  "get_channel_files fs channel =
     (let path = ch_path channel in
      case fs path of
        None \<Rightarrow> []
      | Some entries \<Rightarrow>
          map (\<lambda>f. path_join path (strip f)) (filter is_video (sort entries)))"

subsection \<open>The standard library's hash and generators\<close>

text \<open>
  The parts of \<^verbatim>\<open>hashlib\<close> and \<^verbatim>\<open>random\<close> the program calls, over a type \<open>'g\<close> of
  generator states: \<open>md5_int s\<close> is \<^verbatim>\<open>int(hashlib.md5(s.encode()).hexdigest(), 16)\<close>,
  \<open>new_random n\<close> the state of \<^verbatim>\<open>random.Random(n)\<close>, and \<open>randbelow\<close>, \<open>randint\<close>
  and \<open>sample\<close> draw from a generator and return its next state.
\<close>

record 'g pylib =
  md5_int :: "string \<Rightarrow> nat"
  new_random :: "nat \<Rightarrow> 'g"
  randbelow :: "'g \<Rightarrow> nat \<Rightarrow> nat \<times> 'g"
  randint :: "'g \<Rightarrow> int \<Rightarrow> int \<Rightarrow> int \<times> 'g"
  sample :: "'g \<Rightarrow> string list \<Rightarrow> nat \<Rightarrow> string list \<times> 'g"

text \<open>
  What the library documents of the three draws: \<^verbatim>\<open>_randbelow(n)\<close> is below \<open>n\<close>,
  \<^verbatim>\<open>randint(a, b)\<close> lies in \<open>a..b\<close>, and \<^verbatim>\<open>sample(population, k)\<close> is \<open>k\<close> entries of
  the population, none taken twice.
\<close>

definition randbelow_ok :: "'g pylib \<Rightarrow> bool" where
  "randbelow_ok L \<longleftrightarrow> (\<forall>g n. 0 < n \<longrightarrow> fst (randbelow L g n) < n)"

definition randint_ok :: "'g pylib \<Rightarrow> bool" where
  "randint_ok L \<longleftrightarrow>
     (\<forall>g a b. a \<le> b \<longrightarrow> a \<le> fst (randint L g a b) \<and> fst (randint L g a b) \<le> b)"

definition sample_ok :: "'g pylib \<Rightarrow> bool" where
  "sample_ok L \<longleftrightarrow>
     (\<forall>g population k. k \<le> length population \<longrightarrow>
        length (fst (sample L g population k)) = k \<and>
        mset (fst (sample L g population k)) \<subseteq># mset population)"

subsection \<open>Deterministic shuffler\<close>

text \<open>
  Modelled from the spec: \<^verbatim>\<open>random.Random.shuffle\<close> belongs to the standard library,
  not to the repository. The spec (4.3) asks for a standard unbiased shuffle such as
  Fisher-Yates driven by the seeded generator; the loop below is that algorithm as
  CPython writes it,
  \<^verbatim>\<open>for i in reversed(range(1, len(x))): j = randbelow(i + 1); x[i], x[j] = x[j], x[i]\<close>.
  \<open>shuffle_from L i x g\<close> runs the iterations \<open>i, i - 1, ..., 1\<close>.
\<close>

fun shuffle_from :: "'g pylib \<Rightarrow> nat \<Rightarrow> 'a list \<Rightarrow> 'g \<Rightarrow> 'a list \<times> 'g" where
  "shuffle_from L 0 x g = (x, g)"
| "shuffle_from L (Suc k) x g =
     (let i = Suc k;
          (j, g') = randbelow L g (i + 1)
      in shuffle_from L k (x[i := x ! j, j := x ! i]) g')"

definition shuffle :: "'g pylib \<Rightarrow> 'a list \<Rightarrow> 'g \<Rightarrow> 'a list \<times> 'g" where
  "shuffle L x g = shuffle_from L (length x - 1) x g"

text \<open>
  \<^verbatim>\<open>stable_shuffle\<close>: a generator of its own, seeded with the MD5 of the seed string,
  shuffles a copy of the list. \<open>G\<close> is the state of the process-wide generator, which
  the function neither reads nor advances.
\<close>

definition stable_shuffle :: "'g pylib \<Rightarrow> string list \<Rightarrow> string \<Rightarrow> 'g \<Rightarrow> string list \<times> 'g" where
  "stable_shuffle L files seed G =
     (let rng = new_random L (md5_int L seed);
          shuffled = files;
          (shuffled, rng) = shuffle L shuffled rng
      in (shuffled, G))"

subsection \<open>Playlist builder\<close>

text \<open>
  Step 4 of \<^verbatim>\<open>build_playlist\<close>, the loop \<^verbatim>\<open>for ep in files\<close>: the episode is
  appended, then, when there are commercials, \<^verbatim>\<open>random.randint(0, 2)\<close> and
  \<^verbatim>\<open>random.sample(commercials, k=min(num_ads, len(commercials)))\<close> draw from the
  process-wide generator \<open>G\<close>. The sample size is a natural number: \<^verbatim>\<open>randint(0, 2)\<close>
  is never negative, by the contract \<open>randint_ok\<close>.
\<close>

fun interleave ::
  "'g pylib \<Rightarrow> string list \<Rightarrow> string list \<Rightarrow> string list \<Rightarrow> 'g \<Rightarrow> string list \<times> 'g" where
  "interleave L commercials [] playlist G = (playlist, G)"
| "interleave L commercials (ep # eps) playlist G =
     (if commercials \<noteq> [] then
        let (num_ads, G1) = randint L G 0 2;
            (chosen_ads, G2) =
              sample L G1 commercials (nat (min num_ads (int (length commercials))))
        in interleave L commercials eps (playlist @ [ep] @ chosen_ads) G2
      else interleave L commercials eps (playlist @ [ep]) G)"

text \<open>
  \<^verbatim>\<open>build_playlist\<close>. \<^verbatim>\<open>channel.get("rotation") == "random"\<close> holds for the string
  \<^verbatim>\<open>random\<close> only; \<^verbatim>\<open>channel.get("commercials", True)\<close> is tested for its truth
  value, \<open>True\<close> when the key is absent.
\<close>

definition build_playlist ::
  "'g pylib \<Rightarrow> filesystem \<Rightarrow> channel \<Rightarrow> 'g \<Rightarrow> string list \<times> 'g" where
  "build_playlist L fs channel G =
     (let files0 = get_channel_files fs channel;
          (files, G0) =
            (if ch_rotation channel = Some (JStr ''random'')
             then stable_shuffle L files0 (ch_id channel) G
             else (sort files0, G))
      in
        if (case ch_commercials channel of None \<Rightarrow> True | Some v \<Rightarrow> truthy v) then
          let commercial_path = path_join ''media'' ''commercials'';
              commercials =
                (case fs commercial_path of
                   None \<Rightarrow> []
                 | Some entries \<Rightarrow> map (path_join commercial_path) (filter is_video entries))
          in interleave L commercials files [] G0
        else (files, G0))"

text \<open>
  The start-up loop \<^verbatim>\<open>for ch in CHANNELS: PLAYLISTS[ch["id"]] = build_playlist(ch)\<close>;
  the table starts empty.
\<close>

fun build_playlists ::
  "'g pylib \<Rightarrow> filesystem \<Rightarrow> channel list \<Rightarrow> (string \<rightharpoonup> string list) \<Rightarrow> 'g \<Rightarrow>
   (string \<rightharpoonup> string list) \<times> 'g" where
  "build_playlists L fs [] PLAYLISTS G = (PLAYLISTS, G)"
| "build_playlists L fs (ch # chs) PLAYLISTS G =
     (let (playlist, G1) = build_playlist L fs ch G
      in build_playlists L fs chs (PLAYLISTS(ch_id ch \<mapsto> playlist)) G1)"

subsection \<open>Auxiliary definitions of the verification\<close>


text \<open>
  Following the spec's words (4.5 step 4): \<open>elapsed = (currentTime - ReferenceEpoch) mod total\<close>
  over the rationals.
\<close>

definition spec_elapsed :: "rat \<Rightarrow> rat \<Rightarrow> rat" where
  "spec_elapsed t tot = (t - START_TIME) - tot * of_int \<lfloor>(t - START_TIME) / tot\<rfloor>"

text \<open>
  Test doubles for concrete scenarios: a probe that answers from a table of outputs and
  raises for any other file, and a channel record.
\<close>

definition probe_table :: "(string \<times> string) list \<Rightarrow> string \<Rightarrow> probe_result" where
  "probe_table outputs filepath =
     (case map_of outputs filepath of None \<Rightarrow> ProbeRaised | Some out \<Rightarrow> ProbeOutput out)"

definition toons :: channel where
  "toons = \<lparr>ch_id = ''toons'', ch_name = ''Toons'', ch_path = ''media/toons'',
            ch_rotation = None, ch_commercials = Some (JBool False)\<rparr>"

text \<open>
  Names for the intermediate values of \<^verbatim>\<open>build_playlist\<close>: the truth value its
  step 3 tests, the list \<^verbatim>\<open>files\<close> after step 2 (with the state of the process-wide
  generator), and the list \<^verbatim>\<open>commercials\<close>.
\<close>

definition filler_enabled :: "channel \<Rightarrow> bool" where
  "filler_enabled channel = (case ch_commercials channel of None \<Rightarrow> True | Some v \<Rightarrow> truthy v)"

definition ordered_files :: "'g pylib \<Rightarrow> filesystem \<Rightarrow> channel \<Rightarrow> 'g \<Rightarrow> string list \<times> 'g" where
  "ordered_files L fs channel G =
     (if ch_rotation channel = Some (JStr ''random'')
      then stable_shuffle L (get_channel_files fs channel) (ch_id channel) G
      else (sort (get_channel_files fs channel), G))"

definition commercial_files :: "filesystem \<Rightarrow> string list" where
  "commercial_files fs =
     (case fs (path_join ''media'' ''commercials'') of
        None \<Rightarrow> []
      | Some entries \<Rightarrow> map (path_join (path_join ''media'' ''commercials'')) (filter is_video entries))"

text \<open>
  More test doubles: a library whose generator state is a counter, and a file system
  with a channel folder and the commercials folder.
\<close>

definition counter_lib :: "nat pylib" where
  "counter_lib =
     \<lparr>md5_int = (\<lambda>s. sum_list (map of_char s)),
      new_random = (\<lambda>n. n),
      randbelow = (\<lambda>g n. (g mod n, Suc g)),
      randint = (\<lambda>g a b. (a + int g mod (b - a + 1), Suc g)),
      sample = (\<lambda>g population k. (take k (rotate g population), Suc g))\<rparr>"

definition demo_fs :: filesystem where
  "demo_fs =
     [''media/toons'' \<mapsto> [''ep2.mp4'', ''notes.txt'', ''ep1.MP4'', ''ep3.mkv''],
      ''media/commercials'' \<mapsto> [''ad1.mp4'', ''ad2.mov'', ''readme.md'']]"

text \<open>
  A float unit that never rounds. It agrees with the machine wherever the exact result
  is a float, as it is for every operation of the scenarios below.
\<close>

definition exact_arith :: float_ops where
  "exact_arith = \<lparr>fadd = (\<lambda>a b. a + b), fsub = (\<lambda>a b. a - b)\<rparr>"

section \<open>Schedule engine: properties\<close>

subsection \<open>Truncation and the walk over the durations\<close>

lemma floor_rat_numeral_div: "\<lfloor>numeral a / numeral b :: rat\<rfloor> = numeral a div numeral b"
  using floor_divide_of_int_eq[of "numeral a" "numeral b", where ?'a = rat] by simp

lemma floor_rat_one_div: "\<lfloor>1 / numeral b :: rat\<rfloor> = 1 div numeral b"
  using floor_divide_of_int_eq[of 1 "numeral b", where ?'a = rat] by simp

lemma py_int_of_int: "py_int (of_int k) = k"
  by (simp add: py_int_def)

lemma py_int_nonneg: "0 \<le> x \<Longrightarrow> 0 \<le> py_int x \<and> of_int (py_int x) \<le> x \<and> x < of_int (py_int x) + 1"
  by (simp add: py_int_def) linarith


lemma py_int_pos_le:
  assumes "1 \<le> py_int x"
  shows "of_int (py_int x) \<le> x"
proof (cases "0 \<le> x")
  case True
  then show ?thesis by (simp add: py_int_def)
next
  case False
  then have "\<lceil>x\<rceil> \<le> 0" by (simp add: ceiling_le_iff)
  with False assms show ?thesis by (simp add: py_int_def)
qed

lemma py_int_Ints: "x \<in> \<int> \<Longrightarrow> of_int (py_int x) = x"
  by (auto simp: Ints_def py_int_of_int)

lemma find_current_Some:
  "find_current ds i x = Some (k, d, off) \<Longrightarrow>
     \<exists>j. k = i + j \<and> j < length ds \<and> d = ds ! j \<and> off = x - sum_list (take j ds) \<and> off < d \<and>
         (\<forall>m<j. sum_list (take (Suc m) ds) \<le> x)"
proof (induction ds arbitrary: i x)
  case Nil
  then show ?case by simp
next
  case (Cons a ds)
  show ?case
  proof (cases "x < a")
    case True
    with Cons.prems show ?thesis by (intro exI[of _ 0]) simp
  next
    case False
    with Cons.prems have "find_current ds (Suc i) (x - a) = Some (k, d, off)" by simp
    from Cons.IH[OF this] obtain j where j: "k = Suc i + j" "j < length ds" "d = ds ! j"
      "off = x - a - sum_list (take j ds)" "off < d"
      "\<forall>m<j. sum_list (take (Suc m) ds) \<le> x - a" by blast
    have "\<forall>m<Suc j. sum_list (take (Suc m) (a # ds)) \<le> x"
    proof (intro allI impI)
      fix m assume "m < Suc j"
      show "sum_list (take (Suc m) (a # ds)) \<le> x"
      proof (cases m)
        case 0
        with False show ?thesis by simp
      next
        case (Suc m')
        with \<open>m < Suc j\<close> j(6) have "sum_list (take (Suc m') ds) \<le> x - a" by simp
        with Suc show ?thesis by simp
      qed
    qed
    with j show ?thesis by (intro exI[of _ "Suc j"]) simp
  qed
qed

lemma find_current_nonneg:
  "find_current ds i x = Some (k, d, off) \<Longrightarrow> 0 \<le> x \<Longrightarrow> 0 \<le> off"
  by (induction ds arbitrary: i x) (auto split: if_splits)

lemma find_current_finds:
  "0 \<le> x \<Longrightarrow> x < sum_list ds \<Longrightarrow> \<exists>r. find_current ds i x = Some r"
  by (induction ds arbitrary: i x) auto

lemma get_now_playing_walk:
  assumes "PLAYLISTS (ch_id channel) = Some files" and "files \<noteq> []"
    and "py_int (sum_list (map (get_duration ffprobe py_float) files)) \<noteq> 0"
  shows "get_now_playing PLAYLISTS ffprobe py_float channel now now' =
     (case find_current (map (get_duration ffprobe py_float) files) 0
             (of_int (py_int (now - START_TIME) mod
                      py_int (sum_list (map (get_duration ffprobe py_float) files)))) of
        Some (i, d, offset) \<Rightarrow>
          Inr (Some (files ! i), py_int offset,
               Some (if 1 < length files then files ! ((i + 1) mod length files) else files ! i),
               Some (now' + (d - offset)))
      | None \<Rightarrow> Inr (Some (files ! 0), 0, Some (files ! 0), None))"
  using assms by (simp add: get_now_playing_def Let_def split: option.splits prod.splits)



lemmas demo_simps = get_duration_def probe_duration_def probe_table_def toons_def strip_def is_space_def
  START_TIME_def py_int_def floor_rat_one_div floor_rat_numeral_div

subsection \<open>A playlist whose total truncates to zero\<close>

text \<open>
  Claim C1. The spec asks that a non-empty playlist whose total duration is zero, or
  truncates to zero, yields the nothing-playing result. The code has no such guard:
  whenever the playlist of the channel is not empty and \<^verbatim>\<open>int(total)\<close> is zero, the
  statement \<^verbatim>\<open>elapsed %= int(total)\<close> raises \<^verbatim>\<open>ZeroDivisionError\<close>, at every time.
\<close>

theorem get_now_playing_zero_total:
  assumes "PLAYLISTS (ch_id channel) = Some files" and "files \<noteq> []"
    and "py_int (sum_list (map (get_duration ffprobe py_float) files)) = 0"
  shows "get_now_playing PLAYLISTS ffprobe py_float channel now now' = Inl ZeroDivisionError"
  using assms by (simp add: get_now_playing_def)

text \<open>
  The failing input: a playlist of one clip of half a second.
\<close>

theorem get_now_playing_zero_total_witness:
  "[''toons'' \<mapsto> [''media/toons/clip.mp4'']] (ch_id toons) = Some [''media/toons/clip.mp4'']
   \<and> sum_list (map (get_duration (probe_table [(''media/toons/clip.mp4'', ''0.500000\<newline>'')])
                      (map_of [(''0.500000'', 1 / 2)])) [''media/toons/clip.mp4'']) = 1 / 2
   \<and> get_now_playing [''toons'' \<mapsto> [''media/toons/clip.mp4'']]
        (probe_table [(''media/toons/clip.mp4'', ''0.500000\<newline>'')])
        (map_of [(''0.500000'', 1 / 2)]) toons (START_TIME + 1400) (START_TIME + 1400)
      = Inl ZeroDivisionError"
proof -
  have a: "[''toons'' \<mapsto> [''media/toons/clip.mp4'']] (ch_id toons) = Some [''media/toons/clip.mp4'']"
    by (simp add: toons_def)
  have b: "sum_list (map (get_duration (probe_table [(''media/toons/clip.mp4'', ''0.500000\<newline>'')])
                      (map_of [(''0.500000'', 1 / 2)])) [''media/toons/clip.mp4'']) = 1 / 2"
    by (simp add: get_duration_def probe_duration_def probe_table_def strip_def is_space_def)
  have c: "py_int (sum_list (map (get_duration (probe_table [(''media/toons/clip.mp4'', ''0.500000\<newline>'')])
                      (map_of [(''0.500000'', 1 / 2)])) [''media/toons/clip.mp4''])) = 0"
    unfolding b by (simp add: py_int_def floor_rat_one_div)
  have d: "[''media/toons/clip.mp4''] \<noteq> []" by simp
  show ?thesis
    using a b get_now_playing_zero_total[of "[''toons'' \<mapsto> [''media/toons/clip.mp4'']]" toons
        "[''media/toons/clip.mp4'']" "probe_table [(''media/toons/clip.mp4'', ''0.500000\<newline>'')]"
        "map_of [(''0.500000'', 1 / 2)]" "START_TIME + 1400" "START_TIME + 1400", OF a d c]
    by blast
qed

subsection \<open>The current file and its offset\<close>

text \<open>
  The walk with rounded subtraction: where it stops, and that the offset stays
  non-negative; with exact operations it is the walk of \<open>find_current\<close>.
\<close>

lemma foldl_add_sum_list: "foldl (\<lambda>a b. a + b) acc xs = acc + sum_list (xs :: rat list)"
  by (induction xs arbitrary: acc) simp_all

lemma float_sum_exact_arith: "float_sum exact_arith xs = sum_list xs"
  by (simp add: float_sum_def exact_arith_def foldl_add_sum_list)

lemma find_current_fp_exact_arith: "find_current_fp exact_arith ds i x = find_current ds i x"
  by (induction ds arbitrary: i x) (simp_all add: exact_arith_def)

lemma get_now_playing_fp_exact_arith:
  "get_now_playing_fp exact_arith PLAYLISTS ffprobe py_float channel now now' =
   get_now_playing PLAYLISTS ffprobe py_float channel now now'"
  unfolding get_now_playing_fp_def get_now_playing_def float_sum_exact_arith
    find_current_fp_exact_arith
  by (simp add: exact_arith_def Let_def split: option.splits prod.splits)

lemma fsub_sign_exact_arith: "fsub_sign exact_arith"
  by (simp add: fsub_sign_def exact_arith_def)

lemma find_current_fp_Some:
  "find_current_fp F ds i x = Some (k, d, off) \<Longrightarrow>
     \<exists>j. k = i + j \<and> j < length ds \<and> d = ds ! j \<and> off < d"
proof (induction ds arbitrary: i x)
  case Nil
  then show ?case by simp
next
  case (Cons a ds)
  show ?case
  proof (cases "x < a")
    case True
    with Cons.prems show ?thesis by (intro exI[of _ 0]) simp
  next
    case False
    with Cons.prems have "find_current_fp F ds (Suc i) (fsub F x a) = Some (k, d, off)" by simp
    from Cons.IH[OF this] obtain j where "k = Suc i + j" "j < length ds" "d = ds ! j" "off < d"
      by blast
    then show ?thesis by (intro exI[of _ "Suc j"]) simp
  qed
qed

lemma find_current_fp_nonneg:
  "fsub_sign F \<Longrightarrow> find_current_fp F ds i x = Some (k, d, off) \<Longrightarrow> 0 \<le> x \<Longrightarrow> 0 \<le> off"
proof (induction ds arbitrary: i x)
  case Nil
  then show ?case by simp
next
  case (Cons a ds)
  show ?case
  proof (cases "x < a")
    case True
    with Cons.prems show ?thesis by simp
  next
    case False
    then have "0 \<le> fsub F x a" using Cons.prems(1) by (simp add: fsub_sign_def)
    moreover have "find_current_fp F ds (Suc i) (fsub F x a) = Some (k, d, off)"
      using False Cons.prems(2) by simp
    ultimately show ?thesis using Cons.IH[OF Cons.prems(1)] by blast
  qed
qed

lemma find_current_fp_exact:
  "\<forall>j<length ds. fsub F (x - sum_list (take j ds)) (ds ! j) = x - sum_list (take (Suc j) ds) \<Longrightarrow>
     find_current_fp F ds i x = find_current ds i x"
proof (induction ds arbitrary: i x)
  case Nil
  show ?case by simp
next
  case (Cons a ds)
  have first: "fsub F x a = x - a" using Cons.prems[rule_format, of 0] by simp
  have "\<forall>j<length ds. fsub F (x - a - sum_list (take j ds)) (ds ! j) =
          x - a - sum_list (take (Suc j) ds)"
  proof (intro allI impI)
    fix j assume "j < length ds"
    then have "Suc j < length (a # ds)" by simp
    from Cons.prems[rule_format, OF this]
    show "fsub F (x - a - sum_list (take j ds)) (ds ! j) = x - a - sum_list (take (Suc j) ds)"
      by (simp add: algebra_simps)
  qed
  from Cons.IH[OF this] show ?case by (simp add: first)
qed

lemma get_now_playing_fp_walk:
  assumes "PLAYLISTS (ch_id channel) = Some files" and "files \<noteq> []"
    and "py_int (float_sum F (map (get_duration ffprobe py_float) files)) \<noteq> 0"
  shows "get_now_playing_fp F PLAYLISTS ffprobe py_float channel now now' =
     (case find_current_fp F (map (get_duration ffprobe py_float) files) 0
             (of_int (py_int (fsub F now START_TIME) mod
                      py_int (float_sum F (map (get_duration ffprobe py_float) files)))) of
        Some (i, d, offset) \<Rightarrow>
          Inr (Some (files ! i), py_int offset,
               Some (if 1 < length files then files ! ((i + 1) mod length files) else files ! i),
               Some (fadd F now' (fsub F d offset)))
      | None \<Rightarrow> Inr (Some (files ! 0), 0, Some (files ! 0), None))"
  using assms by (simp add: get_now_playing_fp_def Let_def split: option.splits prod.splits)

lemma fsub_exact_arith: "fsub exact_arith a b = a - b"
  by (simp add: exact_arith_def)

lemma fadd_exact_arith: "fadd exact_arith a b = a + b"
  by (simp add: exact_arith_def)

lemma exact_on_exact_arith: "exact_on exact_arith durations elapsed"
  by (simp add: exact_on_def float_sum_exact_arith fsub_exact_arith take_Suc_conv_app_nth)

text \<open>
  Claim C2, as the code has it. Let the total of a non-empty playlist, summed by the
  machine, truncate to at least one second, and let
  \<open>elapsed = int(now - START_TIME) mod int(total)\<close>. Then \<^verbatim>\<open>get_now_playing\<close> returns one
  file as current: an entry of the playlist with a whole-second offset \<open>n\<close> such that
  \<open>0 \<le> n < duration\<close> of that entry, or, when rounding lets the walk pass the last entry,
  the first file with offset 0. Where nothing is rounded on the playlist, the current
  entry is the first whose cumulative duration exceeds \<open>elapsed\<close>, the offset the loop
  reaches is \<open>elapsed\<close> minus the durations before it and lies in \<open>[0, duration)\<close>, and
  the durations before it plus the reported (truncated) offset lie in
  \<open>(elapsed - 1, elapsed]\<close>, equal to \<open>elapsed\<close> when they sum to a whole number.
\<close>

theorem get_now_playing_fp_current_offset:
  assumes pl: "PLAYLISTS (ch_id channel) = Some files"
    and ne: "files \<noteq> []"
    and durs: "durations = map (get_duration ffprobe py_float) files"
    and tot: "1 \<le> py_int (float_sum F durations)"
    and el: "elapsed = py_int (fsub F now START_TIME) mod py_int (float_sum F durations)"
    and sign: "fsub_sign F"
  shows "((\<exists>i n nxt start. i < length files
            \<and> get_now_playing_fp F PLAYLISTS ffprobe py_float channel now now' =
                 Inr (Some (files ! i), n, Some nxt, Some start)
            \<and> 0 \<le> n \<and> of_int n < durations ! i)
          \<or> get_now_playing_fp F PLAYLISTS ffprobe py_float channel now now' =
               Inr (Some (files ! 0), 0, Some (files ! 0), None))
       \<and> (exact_on F durations elapsed \<longrightarrow>
           (\<exists>i offset. i < length files
              \<and> get_now_playing_fp F PLAYLISTS ffprobe py_float channel now now' =
                  Inr (Some (files ! i), py_int offset,
                       Some (if 1 < length files then files ! ((i + 1) mod length files)
                             else files ! i),
                       Some (fadd F now' (fsub F (durations ! i) offset)))
              \<and> (\<forall>j<i. sum_list (take (Suc j) durations) \<le> of_int elapsed)
              \<and> sum_list (take i durations) + offset = of_int elapsed
              \<and> 0 \<le> offset \<and> offset < durations ! i
              \<and> 0 \<le> py_int offset \<and> of_int (py_int offset) < durations ! i
              \<and> of_int elapsed - 1 < sum_list (take i durations) + of_int (py_int offset)
              \<and> sum_list (take i durations) + of_int (py_int offset) \<le> of_int elapsed
              \<and> (sum_list (take i durations) \<in> \<int> \<longrightarrow>
                   sum_list (take i durations) + of_int (py_int offset) = of_int elapsed)))"
proof -
  let ?k = "py_int (float_sum F durations)"
  let ?g = "get_now_playing_fp F PLAYLISTS ffprobe py_float channel now now'"
  have k: "0 < ?k" using tot by simp
  have e0: "0 \<le> elapsed" and ek: "elapsed < ?k"
    using k by (simp_all add: el)
  have ge: "(0::rat) \<le> of_int elapsed" using e0 by simp
  have k0: "?k \<noteq> 0" using k by simp
  note walk = get_now_playing_fp_walk[of PLAYLISTS channel files F ffprobe py_float now now',
      OF pl ne, unfolded durs[symmetric] el[symmetric], OF k0]
  have len: "length durations = length files" by (simp add: durs)
  have any: "(\<exists>i n nxt start. i < length files
            \<and> ?g = Inr (Some (files ! i), n, Some nxt, Some start)
            \<and> 0 \<le> n \<and> of_int n < durations ! i)
          \<or> ?g = Inr (Some (files ! 0), 0, Some (files ! 0), None)"
  proof (cases "find_current_fp F durations 0 (of_int elapsed)")
    case None
    then show ?thesis using walk by simp
  next
    case (Some r)
    obtain i d offset where r: "r = (i, d, offset)" by (cases r)
    have fc: "find_current_fp F durations 0 (of_int elapsed) = Some (i, d, offset)"
      using Some r by simp
    from find_current_fp_Some[OF fc] have i: "i < length durations" and d: "d = durations ! i"
      and offd: "offset < d" by auto
    have off0: "0 \<le> offset" using find_current_fp_nonneg[OF sign fc ge] .
    note t = py_int_nonneg[OF off0]
    have g: "?g = Inr (Some (files ! i), py_int offset,
               Some (if 1 < length files then files ! ((i + 1) mod length files) else files ! i),
               Some (fadd F now' (fsub F d offset)))"
      using walk fc by simp
    have lt: "of_int (py_int offset) < durations ! i" using t offd d by linarith
    have "\<exists>i n nxt start. i < length files
            \<and> ?g = Inr (Some (files ! i), n, Some nxt, Some start)
            \<and> 0 \<le> n \<and> of_int n < durations ! i"
      using g lt i len t
      by (intro exI[of _ i] exI[of _ "py_int offset"]
            exI[of _ "if 1 < length files then files ! ((i + 1) mod length files) else files ! i"]
            exI[of _ "fadd F now' (fsub F d offset)"]) simp
    then show ?thesis by (rule disjI1)
  qed
  have exact: "\<exists>i offset. i < length files
              \<and> ?g = Inr (Some (files ! i), py_int offset,
                       Some (if 1 < length files then files ! ((i + 1) mod length files)
                             else files ! i),
                       Some (fadd F now' (fsub F (durations ! i) offset)))
              \<and> (\<forall>j<i. sum_list (take (Suc j) durations) \<le> of_int elapsed)
              \<and> sum_list (take i durations) + offset = of_int elapsed
              \<and> 0 \<le> offset \<and> offset < durations ! i
              \<and> 0 \<le> py_int offset \<and> of_int (py_int offset) < durations ! i
              \<and> of_int elapsed - 1 < sum_list (take i durations) + of_int (py_int offset)
              \<and> sum_list (take i durations) + of_int (py_int offset) \<le> of_int elapsed
              \<and> (sum_list (take i durations) \<in> \<int> \<longrightarrow>
                   sum_list (take i durations) + of_int (py_int offset) = of_int elapsed)"
    if ex: "exact_on F durations elapsed"
  proof -
    have s: "float_sum F durations = sum_list durations" using ex by (simp add: exact_on_def)
    have w: "find_current_fp F durations 0 (of_int elapsed) =
             find_current durations 0 (of_int elapsed)"
      using ex by (intro find_current_fp_exact) (simp add: exact_on_def)
    have "(of_int elapsed :: rat) < of_int ?k" using ek by simp
    also have "\<dots> \<le> float_sum F durations" using tot by (rule py_int_pos_le)
    finally have lt: "(of_int elapsed :: rat) < sum_list durations" using s by simp
    from find_current_finds[OF ge lt, of 0] obtain i d offset
      where fc: "find_current durations 0 (of_int elapsed) = Some (i, d, offset)"
      by (metis prod_cases3)
    from find_current_Some[OF fc] have i: "i < length durations" and d: "d = durations ! i"
      and off: "offset = of_int elapsed - sum_list (take i durations)" and offd: "offset < d"
      and first: "\<forall>m<i. sum_list (take (Suc m) durations) \<le> of_int elapsed"
      by auto
    have off0: "0 \<le> offset" using find_current_nonneg[OF fc ge] .
    note t = py_int_nonneg[OF off0]
    have res: "?g = Inr (Some (files ! i), py_int offset,
               Some (if 1 < length files then files ! ((i + 1) mod length files) else files ! i),
               Some (fadd F now' (fsub F (durations ! i) offset)))"
      using walk w fc d by simp
    have whole: "sum_list (take i durations) \<in> \<int> \<longrightarrow>
           sum_list (take i durations) + of_int (py_int offset) = of_int elapsed"
    proof
      assume "sum_list (take i durations) \<in> \<int>"
      then have "offset \<in> \<int>" unfolding off by (intro Ints_diff Ints_of_int)
      then have "of_int (py_int offset) = offset" by (rule py_int_Ints)
      then show "sum_list (take i durations) + of_int (py_int offset) = of_int elapsed"
        using off by simp
    qed
    have "i < length files" using i len by simp
    moreover have "sum_list (take i durations) + offset = of_int elapsed" using off by simp
    moreover have "of_int (py_int offset) < durations ! i" using t offd d by linarith
    moreover have "of_int elapsed - 1 < sum_list (take i durations) + of_int (py_int offset)"
      using t off by linarith
    moreover have "sum_list (take i durations) + of_int (py_int offset) \<le> of_int elapsed"
      using t off by linarith
    ultimately show ?thesis
      using res first off0 offd d t whole by (intro exI[of _ i] exI[of _ offset]) simp
  qed
  show ?thesis using any exact by blast
qed

text \<open>
  The theorem at a playlist of two clips of a second and a half, two seconds after the
  epoch, where every sum and difference is a float and nothing is rounded.
\<close>

theorem get_now_playing_fp_current_offset_witness:
  "[''toons'' \<mapsto> [''a.mp4'', ''b.mp4'']] (ch_id toons) = Some [''a.mp4'', ''b.mp4'']
   \<and> ([3 / 2, 3 / 2] :: rat list) =
       map (get_duration (probe_table [(''a.mp4'', ''1.500000\<newline>''), (''b.mp4'', ''1.500000\<newline>'')])
              (map_of [(''1.500000'', 3 / 2)])) [''a.mp4'', ''b.mp4'']
   \<and> 1 \<le> py_int (float_sum exact_arith [3 / 2, 3 / 2])
   \<and> (2::int) = py_int (fsub exact_arith (START_TIME + 2) START_TIME) mod
                  py_int (float_sum exact_arith [3 / 2, 3 / 2])
   \<and> fsub_sign exact_arith
   \<and> exact_on exact_arith [3 / 2, 3 / 2] 2
   \<and> get_now_playing_fp exact_arith [''toons'' \<mapsto> [''a.mp4'', ''b.mp4'']]
        (probe_table [(''a.mp4'', ''1.500000\<newline>''), (''b.mp4'', ''1.500000\<newline>'')])
        (map_of [(''1.500000'', 3 / 2)]) toons (START_TIME + 2) (START_TIME + 2)
      = Inr (Some ''b.mp4'', 0, Some ''a.mp4'', Some (START_TIME + 3))
   \<and> (\<exists>i offset. i < length [''a.mp4'', ''b.mp4'']
        \<and> get_now_playing_fp exact_arith [''toons'' \<mapsto> [''a.mp4'', ''b.mp4'']]
             (probe_table [(''a.mp4'', ''1.500000\<newline>''), (''b.mp4'', ''1.500000\<newline>'')])
             (map_of [(''1.500000'', 3 / 2)]) toons (START_TIME + 2) (START_TIME + 2) =
            Inr (Some ([''a.mp4'', ''b.mp4''] ! i), py_int offset,
                 Some (if 1 < length [''a.mp4'', ''b.mp4'']
                       then [''a.mp4'', ''b.mp4''] ! ((i + 1) mod length [''a.mp4'', ''b.mp4''])
                       else [''a.mp4'', ''b.mp4''] ! i),
                 Some (fadd exact_arith (START_TIME + 2)
                         (fsub exact_arith (([3 / 2, 3 / 2] :: rat list) ! i) offset)))
        \<and> sum_list (take i ([3 / 2, 3 / 2] :: rat list)) + offset = of_int (2::int)
        \<and> 0 \<le> offset \<and> offset < ([3 / 2, 3 / 2] :: rat list) ! i
        \<and> 0 \<le> py_int offset \<and> of_int (py_int offset) < ([3 / 2, 3 / 2] :: rat list) ! i
        \<and> of_int (2::int) - 1 < sum_list (take i ([3 / 2, 3 / 2] :: rat list)) + of_int (py_int offset)
        \<and> sum_list (take i ([3 / 2, 3 / 2] :: rat list)) + of_int (py_int offset) \<le> of_int (2::int))"
proof -
  have h1: "[''toons'' \<mapsto> [''a.mp4'', ''b.mp4'']] (ch_id toons) = Some [''a.mp4'', ''b.mp4'']"
    by (simp add: toons_def)
  have h2: "[''a.mp4'', ''b.mp4''] \<noteq> []" by simp
  have h3: "([3 / 2, 3 / 2] :: rat list) =
       map (get_duration (probe_table [(''a.mp4'', ''1.500000\<newline>''), (''b.mp4'', ''1.500000\<newline>'')])
              (map_of [(''1.500000'', 3 / 2)])) [''a.mp4'', ''b.mp4'']"
    by (simp add: demo_simps)
  have h4: "1 \<le> py_int (float_sum exact_arith [3 / 2, 3 / 2])"
    by (simp add: float_sum_exact_arith demo_simps)
  have h5: "(2::int) = py_int (fsub exact_arith (START_TIME + 2) START_TIME) mod
                  py_int (float_sum exact_arith [3 / 2, 3 / 2])"
    by (simp add: float_sum_exact_arith fsub_exact_arith demo_simps)
  have v: "get_now_playing_fp exact_arith [''toons'' \<mapsto> [''a.mp4'', ''b.mp4'']]
        (probe_table [(''a.mp4'', ''1.500000\<newline>''), (''b.mp4'', ''1.500000\<newline>'')])
        (map_of [(''1.500000'', 3 / 2)]) toons (START_TIME + 2) (START_TIME + 2)
      = Inr (Some ''b.mp4'', 0, Some ''a.mp4'', Some (START_TIME + 3))"
    by (simp add: get_now_playing_fp_exact_arith get_now_playing_def demo_simps)
  note t = get_now_playing_fp_current_offset[of "[''toons'' \<mapsto> [''a.mp4'', ''b.mp4'']]" toons
      "[''a.mp4'', ''b.mp4'']" "[3 / 2, 3 / 2] :: rat list"
      "probe_table [(''a.mp4'', ''1.500000\<newline>''), (''b.mp4'', ''1.500000\<newline>'')]"
      "map_of [(''1.500000'', 3 / 2)]" exact_arith 2 "START_TIME + 2" "START_TIME + 2",
      OF h1 h2 h3 h4 h5 fsub_sign_exact_arith]
  from t have "exact_on exact_arith [3 / 2, 3 / 2] 2 \<longrightarrow> (\<exists>i offset. i < length [''a.mp4'', ''b.mp4'']
        \<and> get_now_playing_fp exact_arith [''toons'' \<mapsto> [''a.mp4'', ''b.mp4'']]
             (probe_table [(''a.mp4'', ''1.500000\<newline>''), (''b.mp4'', ''1.500000\<newline>'')])
             (map_of [(''1.500000'', 3 / 2)]) toons (START_TIME + 2) (START_TIME + 2) =
            Inr (Some ([''a.mp4'', ''b.mp4''] ! i), py_int offset,
                 Some (if 1 < length [''a.mp4'', ''b.mp4'']
                       then [''a.mp4'', ''b.mp4''] ! ((i + 1) mod length [''a.mp4'', ''b.mp4''])
                       else [''a.mp4'', ''b.mp4''] ! i),
                 Some (fadd exact_arith (START_TIME + 2)
                         (fsub exact_arith (([3 / 2, 3 / 2] :: rat list) ! i) offset)))
        \<and> sum_list (take i ([3 / 2, 3 / 2] :: rat list)) + offset = of_int (2::int)
        \<and> 0 \<le> offset \<and> offset < ([3 / 2, 3 / 2] :: rat list) ! i
        \<and> 0 \<le> py_int offset \<and> of_int (py_int offset) < ([3 / 2, 3 / 2] :: rat list) ! i
        \<and> of_int (2::int) - 1 < sum_list (take i ([3 / 2, 3 / 2] :: rat list)) + of_int (py_int offset)
        \<and> sum_list (take i ([3 / 2, 3 / 2] :: rat list)) + of_int (py_int offset) \<le> of_int (2::int))"
    by blast
  then show ?thesis
    using h1 h3 h4 h5 v fsub_sign_exact_arith exact_on_exact_arith[of "[3 / 2, 3 / 2]" 2]
    by blast
qed
text \<open>
  The claim as the spec states it fails at that input, where no operation rounds (see
  \<open>get_now_playing_fp_exact_arith\<close>): the second clip is current, the reported offset is
  0, and the duration before it, 3/2, plus 0 is not the \<open>elapsed = 2\<close> of the spec.
\<close>

theorem get_now_playing_offset_sum_counterexample:
  "sum_list (map (get_duration (probe_table [(''a.mp4'', ''1.500000\<newline>''), (''b.mp4'', ''1.500000\<newline>'')])
                   (map_of [(''1.500000'', 3 / 2)])) [''a.mp4'', ''b.mp4'']) = 3
   \<and> spec_elapsed (START_TIME + 2) 3 = 2
   \<and> get_now_playing [''toons'' \<mapsto> [''a.mp4'', ''b.mp4'']]
        (probe_table [(''a.mp4'', ''1.500000\<newline>''), (''b.mp4'', ''1.500000\<newline>'')])
        (map_of [(''1.500000'', 3 / 2)]) toons (START_TIME + 2) (START_TIME + 2)
      = Inr (Some ''b.mp4'', 0, Some ''a.mp4'', Some (START_TIME + 3))
   \<and> sum_list (take 1 (map (get_duration (probe_table [(''a.mp4'', ''1.500000\<newline>''), (''b.mp4'', ''1.500000\<newline>'')])
                   (map_of [(''1.500000'', 3 / 2)])) [''a.mp4'', ''b.mp4''])) + of_int 0
      \<noteq> spec_elapsed (START_TIME + 2) 3"
  by (simp add: get_now_playing_def spec_elapsed_def demo_simps)

subsection \<open>Periodicity\<close>




subsection \<open>The scenario of the spec\<close>

text \<open>
  Claim C4. For a playlist \<open>[A, B]\<close> with durations 600 and 900 and the clock at
  \<open>t = START_TIME + 1400\<close>, \<^verbatim>\<open>get_now_playing\<close> returns \<open>B\<close> as current, offset 800,
  \<open>A\<close> as next, and as start of the next file the second clock reading plus 100, which
  is \<open>t + 100\<close> when that reading is \<open>t\<close> too.
\<close>

theorem get_now_playing_scenario:
  assumes "PLAYLISTS (ch_id channel) = Some [A, B]"
    and "get_duration ffprobe py_float A = 600"
    and "get_duration ffprobe py_float B = 900"
    and "t = START_TIME + 1400"
  shows "get_now_playing PLAYLISTS ffprobe py_float channel t now' =
           Inr (Some B, 800, Some A, Some (now' + 100))
       \<and> get_now_playing PLAYLISTS ffprobe py_float channel t t =
           Inr (Some B, 800, Some A, Some (t + 100))"
  using assms by (simp add: get_now_playing_def py_int_def)

text \<open>
  The scenario with a probe that prints the two durations.
\<close>

theorem get_now_playing_scenario_witness:
  "[''toons'' \<mapsto> [''A.mp4'', ''B.mp4'']] (ch_id toons) = Some [''A.mp4'', ''B.mp4'']
   \<and> get_duration (probe_table [(''A.mp4'', ''600.000000\<newline>''), (''B.mp4'', ''900.000000\<newline>'')])
        (map_of [(''600.000000'', 600), (''900.000000'', 900)]) ''A.mp4'' = 600
   \<and> get_duration (probe_table [(''A.mp4'', ''600.000000\<newline>''), (''B.mp4'', ''900.000000\<newline>'')])
        (map_of [(''600.000000'', 600), (''900.000000'', 900)]) ''B.mp4'' = 900
   \<and> get_now_playing [''toons'' \<mapsto> [''A.mp4'', ''B.mp4'']]
        (probe_table [(''A.mp4'', ''600.000000\<newline>''), (''B.mp4'', ''900.000000\<newline>'')])
        (map_of [(''600.000000'', 600), (''900.000000'', 900)]) toons
        (START_TIME + 1400) (START_TIME + 1400)
      = Inr (Some ''B.mp4'', 800, Some ''A.mp4'', Some (START_TIME + 1400 + 100))"
  using get_now_playing_scenario[of "[''toons'' \<mapsto> [''A.mp4'', ''B.mp4'']]" toons "''A.mp4''" "''B.mp4''"
      "probe_table [(''A.mp4'', ''600.000000\<newline>''), (''B.mp4'', ''900.000000\<newline>'')]"
      "map_of [(''600.000000'', 600), (''900.000000'', 900)]" "START_TIME + 1400" "START_TIME + 1400"]
  by (simp add: get_duration_def probe_duration_def probe_table_def toons_def strip_def is_space_def)


section \<open>Shuffler, builder and resolver: properties\<close>

subsection \<open>The counter library keeps the library's contract\<close>

lemma counter_lib_randbelow_ok: "randbelow_ok counter_lib"
  by (simp add: randbelow_ok_def counter_lib_def)

lemma counter_lib_randint_ok: "randint_ok counter_lib"
proof -
  have "a \<le> a + int g mod (b - a + 1) \<and> a + int g mod (b - a + 1) \<le> b"
    if "a \<le> b" for a b :: int and g :: nat
  proof -
    have "0 < b - a + 1" using that by simp
    then have "0 \<le> int g mod (b - a + 1)" "int g mod (b - a + 1) < b - a + 1"
      by (rule pos_mod_sign, rule pos_mod_bound)
    then show ?thesis by simp
  qed
  then show ?thesis by (simp add: randint_ok_def counter_lib_def)
qed

lemma mset_take_subseteq: "mset (take k xs) \<subseteq># mset xs"
  by (metis append_take_drop_id mset_append mset_subset_eq_add_left)

lemma mset_rotate_eq: "mset (rotate n xs) = mset xs"
proof -
  let ?m = "n mod length xs"
  have "mset (rotate n xs) = mset (drop ?m xs) + mset (take ?m xs)"
    by (simp add: rotate_drop_take)
  also have "\<dots> = mset (take ?m xs @ drop ?m xs)"
    by (simp only: mset_append add.commute)
  also have "\<dots> = mset xs"
    by (simp only: append_take_drop_id)
  finally show ?thesis .
qed

lemma counter_lib_sample_ok: "sample_ok counter_lib"
proof -
  have "mset (take k (rotate g population)) \<subseteq># mset population"
    for k g and population :: "string list"
    using mset_take_subseteq[of k "rotate g population"] by (simp add: mset_rotate_eq)
  then show ?thesis by (simp add: sample_ok_def counter_lib_def)
qed

subsection \<open>The shuffle\<close>

lemma shuffle_from_mset:
  "randbelow_ok L \<Longrightarrow> k \<le> length x - 1 \<Longrightarrow> mset (fst (shuffle_from L k x g)) = mset x"
proof (induction k arbitrary: x g)
  case 0
  then show ?case by simp
next
  case (Suc k)
  obtain j g' where r: "randbelow L g (Suc k + 1) = (j, g')" by (cases "randbelow L g (Suc k + 1)")
  have i: "Suc k < length x" using Suc.prems(2) by simp
  have "fst (randbelow L g (Suc k + 1)) < Suc k + 1"
    using Suc.prems(1) unfolding randbelow_ok_def by simp
  then have j: "j < length x" using r i by simp
  let ?x' = "x[Suc k := x ! j, j := x ! Suc k]"
  have sw: "mset ?x' = mset x" using mset_swap[OF j i] .
  have "k \<le> length ?x' - 1" using i by simp
  from Suc.IH[OF Suc.prems(1) this] have "mset (fst (shuffle_from L k ?x' g')) = mset x"
    using sw by simp
  then show ?case using r by simp
qed

lemma shuffle_mset: "randbelow_ok L \<Longrightarrow> mset (fst (shuffle L x g)) = mset x"
  by (simp add: shuffle_def shuffle_from_mset)

lemma stable_shuffle_fst:
  "fst (stable_shuffle L files seed G) = fst (shuffle L files (new_random L (md5_int L seed)))"
  by (simp add: stable_shuffle_def Let_def split: prod.splits)

lemma stable_shuffle_snd: "snd (stable_shuffle L files seed G) = G"
  by (simp add: stable_shuffle_def Let_def split: prod.splits)

text \<open>
  Claim C5. \<^verbatim>\<open>stable_shuffle\<close> returns the same order whatever the state of the process
  (its result depends on the list and the seed alone, and the process-wide generator is
  left as it was), and the order is a permutation of the input list.
\<close>

theorem stable_shuffle_deterministic_permutation:
  assumes "randbelow_ok L"
  shows "fst (stable_shuffle L files seed G1) = fst (stable_shuffle L files seed G2)
       \<and> snd (stable_shuffle L files seed G1) = G1
       \<and> mset (fst (stable_shuffle L files seed G1)) = mset files
       \<and> length (fst (stable_shuffle L files seed G1)) = length files"
proof -
  have m: "mset (fst (stable_shuffle L files seed G1)) = mset files"
    using assms by (simp add: stable_shuffle_fst shuffle_mset)
  from m have "length (fst (stable_shuffle L files seed G1)) = length files"
    by (rule mset_eq_length)
  with m show ?thesis by (simp add: stable_shuffle_fst stable_shuffle_snd)
qed


text \<open>
  The theorem with the counter library, for two states of the process-wide generator.
\<close>

theorem stable_shuffle_deterministic_permutation_witness:
  "randbelow_ok counter_lib
   \<and> fst (stable_shuffle counter_lib [''a'', ''b'', ''c'', ''d''] ''toons'' 7) =
       fst (stable_shuffle counter_lib [''a'', ''b'', ''c'', ''d''] ''toons'' 0)
   \<and> snd (stable_shuffle counter_lib [''a'', ''b'', ''c'', ''d''] ''toons'' 7) = 7
   \<and> mset (fst (stable_shuffle counter_lib [''a'', ''b'', ''c'', ''d''] ''toons'' 7)) =
       mset [''a'', ''b'', ''c'', ''d'']
   \<and> length (fst (stable_shuffle counter_lib [''a'', ''b'', ''c'', ''d''] ''toons'' 7)) =
       length [''a'', ''b'', ''c'', ''d'']
   \<and> fst (stable_shuffle counter_lib [''a'', ''b'', ''c'', ''d''] ''toons'' 7) =
       [''c'', ''b'', ''a'', ''d'']"
proof -
  have v: "fst (stable_shuffle counter_lib [''a'', ''b'', ''c'', ''d''] ''toons'' 7) =
       [''c'', ''b'', ''a'', ''d'']"
    by code_simp
  show ?thesis
    using counter_lib_randbelow_ok v
      stable_shuffle_deterministic_permutation[OF counter_lib_randbelow_ok,
        of "[''a'', ''b'', ''c'', ''d'']" "''toons''" 7 0]
    by blast
qed
subsection \<open>The interleaving loop\<close>

lemma interleave_structure:
  assumes "randint_ok L" and "sample_ok L"
  shows "\<exists>adss. length adss = length eps
           \<and> (\<forall>ads \<in> set adss. length ads \<le> 2 \<and> mset ads \<subseteq># mset commercials)
           \<and> fst (interleave L commercials eps playlist G) = playlist @ concat (map2 (#) eps adss)"
proof (induction eps arbitrary: playlist G)
  case Nil
  show ?case by simp
next
  case (Cons ep eps)
  show ?case
  proof (cases "commercials = []")
    case True
    from Cons.IH[of "playlist @ [ep]" G] obtain adss where a: "length adss = length eps"
      "\<forall>ads \<in> set adss. length ads \<le> 2 \<and> mset ads \<subseteq># mset commercials"
      "fst (interleave L commercials eps (playlist @ [ep]) G) =
         (playlist @ [ep]) @ concat (map2 (#) eps adss)" by blast
    show ?thesis using a True by (intro exI[of _ "[] # adss"]) simp
  next
    case False
    obtain num_ads G1 where r: "randint L G 0 2 = (num_ads, G1)" by (cases "randint L G 0 2")
    define k where "k = nat (min num_ads (int (length commercials)))"
    obtain chosen_ads G2 where s: "sample L G1 commercials k = (chosen_ads, G2)"
      by (cases "sample L G1 commercials k")
    have "0 \<le> fst (randint L G 0 2) \<and> fst (randint L G 0 2) \<le> 2"
      using assms(1) unfolding randint_ok_def by simp
    then have n: "0 \<le> num_ads" "num_ads \<le> 2" using r by simp_all
    have k: "k \<le> length commercials" "k \<le> 2" using n by (simp_all add: k_def)
    have "length (fst (sample L G1 commercials k)) = k \<and>
          mset (fst (sample L G1 commercials k)) \<subseteq># mset commercials"
      using assms(2) k(1) unfolding sample_ok_def by simp
    then have c: "length chosen_ads \<le> 2" "mset chosen_ads \<subseteq># mset commercials"
      using s k(2) by simp_all
    from Cons.IH[of "playlist @ [ep] @ chosen_ads" G2] obtain adss where a: "length adss = length eps"
      "\<forall>ads \<in> set adss. length ads \<le> 2 \<and> mset ads \<subseteq># mset commercials"
      "fst (interleave L commercials eps (playlist @ [ep] @ chosen_ads) G2) =
         (playlist @ [ep] @ chosen_ads) @ concat (map2 (#) eps adss)" by blast
    have "fst (interleave L commercials (ep # eps) playlist G) =
          fst (interleave L commercials eps (playlist @ [ep] @ chosen_ads) G2)"
      using False r s by (simp add: k_def)
    then show ?thesis using a c by (intro exI[of _ "chosen_ads # adss"]) simp
  qed
qed

lemma length_concat_map2_Cons:
  "length adss = length eps \<Longrightarrow>
     length (concat (map2 (#) eps adss)) = length eps + sum_list (map length adss)"
  by (induction eps adss rule: list_induct2') simp_all

lemma sum_list_length_bound:
  "\<forall>ads \<in> set adss. length ads \<le> 2 \<Longrightarrow> sum_list (map length adss) \<le> 2 * length adss"
  by (induction adss) auto

lemma subseq_concat_map2_Cons:
  "length adss = length eps \<Longrightarrow> subseq eps (concat (map2 (#) eps adss))"
proof (induction eps adss rule: list_induct2')
  case (4 x xs y ys)
  then have "subseq xs (concat (map2 (#) xs ys))" by simp
  then have "subseq xs (y @ concat (map2 (#) xs ys))" by (rule list_emb_append2)
  then show ?case by simp
qed simp_all

lemma get_channel_files_commercials [simp]:
  "get_channel_files fs (channel\<lparr>ch_commercials := c\<rparr>) = get_channel_files fs channel"
  by (simp add: get_channel_files_def)

lemma ordered_files_commercials [simp]:
  "ordered_files L fs (channel\<lparr>ch_commercials := c\<rparr>) G = ordered_files L fs channel G"
  by (simp add: ordered_files_def)

lemma build_playlist_steps:
  "build_playlist L fs channel G =
     (if filler_enabled channel
      then interleave L (commercial_files fs) (fst (ordered_files L fs channel G)) []
             (snd (ordered_files L fs channel G))
      else ordered_files L fs channel G)"
  by (simp add: build_playlist_def filler_enabled_def ordered_files_def commercial_files_def
        Let_def split: prod.splits)

lemma ordered_files_snd: "snd (ordered_files L fs channel G) = G"
  by (simp add: ordered_files_def stable_shuffle_snd)

lemma ordered_files_mset:
  "randbelow_ok L \<Longrightarrow> mset (fst (ordered_files L fs channel G)) = mset (get_channel_files fs channel)"
  by (simp add: ordered_files_def stable_shuffle_fst shuffle_mset)

subsection \<open>The playlist builder\<close>

text \<open>
  Claim C6. With filler disabled \<^verbatim>\<open>build_playlist\<close> returns the ordered main files and
  nothing else: the seeded shuffle of the scanned files when the rotation is \<^verbatim>\<open>random\<close>,
  the sorted scanned files otherwise; the entries are those of the scan, and the
  process-wide generator is not used.
\<close>

theorem build_playlist_without_filler:
  assumes "\<not> filler_enabled channel" and "randbelow_ok L"
  shows "fst (build_playlist L fs channel G) =
           (if ch_rotation channel = Some (JStr ''random'')
            then fst (stable_shuffle L (get_channel_files fs channel) (ch_id channel) G)
            else sort (get_channel_files fs channel))
       \<and> mset (fst (build_playlist L fs channel G)) = mset (get_channel_files fs channel)
       \<and> snd (build_playlist L fs channel G) = G"
proof -
  have b: "build_playlist L fs channel G = ordered_files L fs channel G"
    using assms(1) by (simp add: build_playlist_steps)
  have "fst (ordered_files L fs channel G) =
           (if ch_rotation channel = Some (JStr ''random'')
            then fst (stable_shuffle L (get_channel_files fs channel) (ch_id channel) G)
            else sort (get_channel_files fs channel))"
    by (simp add: ordered_files_def)
  moreover have "mset (fst (build_playlist L fs channel G)) = mset (get_channel_files fs channel)"
    unfolding b using assms(2) by (rule ordered_files_mset)
  moreover have "snd (build_playlist L fs channel G) = G"
    unfolding b by (rule ordered_files_snd)
  ultimately show ?thesis unfolding b by blast
qed

text \<open>
  The theorem at a channel with \<^verbatim>\<open>"commercials": false\<close> and sequential rotation.
\<close>

theorem build_playlist_without_filler_witness:
  "\<not> filler_enabled toons
   \<and> randbelow_ok counter_lib
   \<and> fst (build_playlist counter_lib demo_fs toons 1) =
           (if ch_rotation toons = Some (JStr ''random'')
            then fst (stable_shuffle counter_lib (get_channel_files demo_fs toons) (ch_id toons) 1)
            else sort (get_channel_files demo_fs toons))
   \<and> mset (fst (build_playlist counter_lib demo_fs toons 1)) = mset (get_channel_files demo_fs toons)
   \<and> snd (build_playlist counter_lib demo_fs toons 1) = 1
   \<and> get_channel_files demo_fs toons =
       [''media/toons/ep1.MP4'', ''media/toons/ep2.mp4'', ''media/toons/ep3.mkv'']
   \<and> fst (build_playlist counter_lib demo_fs toons 1) =
       [''media/toons/ep1.MP4'', ''media/toons/ep2.mp4'', ''media/toons/ep3.mkv'']"
proof -
  have h: "\<not> filler_enabled toons" by (simp add: filler_enabled_def toons_def)
  have s: "get_channel_files demo_fs toons =
       [''media/toons/ep1.MP4'', ''media/toons/ep2.mp4'', ''media/toons/ep3.mkv'']"
    by code_simp
  have v: "fst (build_playlist counter_lib demo_fs toons 1) =
       [''media/toons/ep1.MP4'', ''media/toons/ep2.mp4'', ''media/toons/ep3.mkv'']"
    by code_simp
  show ?thesis
    using h s v counter_lib_randbelow_ok
      build_playlist_without_filler[OF h counter_lib_randbelow_ok, of demo_fs 1]
    by blast
qed
text \<open>
  Claim C7. With filler enabled and a filler pool that is not empty, for every library
  that keeps the contract of \<^verbatim>\<open>randint\<close> and \<^verbatim>\<open>sample\<close> and every state of the generator,
  the playlist is each main file followed by a list of at most two fillers drawn from
  the pool without replacement; so its length lies between the number of main files and
  three times that number, and the main files keep their order.
\<close>

theorem build_playlist_with_filler:
  assumes "randint_ok L" and "sample_ok L"
    and "filler_enabled channel"
    and "commercial_files fs \<noteq> []"
    and "main = fst (ordered_files L fs channel G)"
  shows "(\<exists>adss. length adss = length main
           \<and> (\<forall>ads \<in> set adss. length ads \<le> 2 \<and> mset ads \<subseteq># mset (commercial_files fs))
           \<and> fst (build_playlist L fs channel G) = concat (map2 (#) main adss))
       \<and> length main \<le> length (fst (build_playlist L fs channel G))
       \<and> length (fst (build_playlist L fs channel G)) \<le> length main * 3
       \<and> subseq main (fst (build_playlist L fs channel G))"
proof -
  have b: "fst (build_playlist L fs channel G) =
           fst (interleave L (commercial_files fs) main [] (snd (ordered_files L fs channel G)))"
    using assms(3,5) by (simp add: build_playlist_steps)
  from interleave_structure[OF assms(1,2), of main "commercial_files fs" "[]"
      "snd (ordered_files L fs channel G)"]
  obtain adss where a: "length adss = length main"
    "\<forall>ads \<in> set adss. length ads \<le> 2 \<and> mset ads \<subseteq># mset (commercial_files fs)"
    "fst (build_playlist L fs channel G) = concat (map2 (#) main adss)"
    unfolding b by auto
  have len: "length (fst (build_playlist L fs channel G)) = length main + sum_list (map length adss)"
    using a(1,3) by (simp add: length_concat_map2_Cons)
  have "sum_list (map length adss) \<le> 2 * length adss"
    using a(2) by (intro sum_list_length_bound) simp
  then have up: "length (fst (build_playlist L fs channel G)) \<le> length main * 3"
    using len a(1) by simp
  have sub: "subseq main (fst (build_playlist L fs channel G))"
    using a(1,3) by (simp add: subseq_concat_map2_Cons)
  show ?thesis using a len up sub by auto
qed

text \<open>
  The theorem at a channel without the \<^verbatim>\<open>commercials\<close> key, three episodes and a pool
  of two fillers.
\<close>

theorem build_playlist_with_filler_witness:
  "randint_ok counter_lib \<and> sample_ok counter_lib
   \<and> filler_enabled (toons\<lparr>ch_commercials := None\<rparr>)
   \<and> commercial_files demo_fs \<noteq> []
   \<and> [''media/toons/ep1.MP4'', ''media/toons/ep2.mp4'', ''media/toons/ep3.mkv''] =
       fst (ordered_files counter_lib demo_fs (toons\<lparr>ch_commercials := None\<rparr>) 1)
   \<and> (\<exists>adss. length adss =
                 length [''media/toons/ep1.MP4'', ''media/toons/ep2.mp4'', ''media/toons/ep3.mkv'']
           \<and> (\<forall>ads \<in> set adss. length ads \<le> 2 \<and> mset ads \<subseteq># mset (commercial_files demo_fs))
           \<and> fst (build_playlist counter_lib demo_fs (toons\<lparr>ch_commercials := None\<rparr>) 1) =
               concat (map2 (#)
                 [''media/toons/ep1.MP4'', ''media/toons/ep2.mp4'', ''media/toons/ep3.mkv''] adss))
   \<and> length [''media/toons/ep1.MP4'', ''media/toons/ep2.mp4'', ''media/toons/ep3.mkv'']
       \<le> length (fst (build_playlist counter_lib demo_fs (toons\<lparr>ch_commercials := None\<rparr>) 1))
   \<and> length (fst (build_playlist counter_lib demo_fs (toons\<lparr>ch_commercials := None\<rparr>) 1))
       \<le> length [''media/toons/ep1.MP4'', ''media/toons/ep2.mp4'', ''media/toons/ep3.mkv''] * 3
   \<and> subseq [''media/toons/ep1.MP4'', ''media/toons/ep2.mp4'', ''media/toons/ep3.mkv'']
        (fst (build_playlist counter_lib demo_fs (toons\<lparr>ch_commercials := None\<rparr>) 1))
   \<and> fst (build_playlist counter_lib demo_fs (toons\<lparr>ch_commercials := None\<rparr>) 1) =
       [''media/toons/ep1.MP4'', ''media/commercials/ad1.mp4'', ''media/toons/ep2.mp4'',
        ''media/toons/ep3.mkv'', ''media/commercials/ad1.mp4'', ''media/commercials/ad2.mov'']"
proof -
  have h3: "filler_enabled (toons\<lparr>ch_commercials := None\<rparr>)" by (simp add: filler_enabled_def)
  have h4: "commercial_files demo_fs \<noteq> []" by code_simp
  have h5: "[''media/toons/ep1.MP4'', ''media/toons/ep2.mp4'', ''media/toons/ep3.mkv''] =
       fst (ordered_files counter_lib demo_fs (toons\<lparr>ch_commercials := None\<rparr>) 1)"
    by code_simp
  have v: "fst (build_playlist counter_lib demo_fs (toons\<lparr>ch_commercials := None\<rparr>) 1) =
       [''media/toons/ep1.MP4'', ''media/commercials/ad1.mp4'', ''media/toons/ep2.mp4'',
        ''media/toons/ep3.mkv'', ''media/commercials/ad1.mp4'', ''media/commercials/ad2.mov'']"
    by code_simp
  note t = build_playlist_with_filler[OF counter_lib_randint_ok counter_lib_sample_ok h3 h4 h5]
  show ?thesis
    using counter_lib_randint_ok counter_lib_sample_ok h3 h4 h5 v t by blast
qed
subsection \<open>The duration resolver\<close>

text \<open>
  Claim C8. \<^verbatim>\<open>get_duration\<close> returns a number in every case: 1320 when the probe
  raises, when its output does not parse, and for any exception of the \<^verbatim>\<open>try\<close> block;
  the parsed number otherwise.
\<close>

theorem get_duration_never_raises:
  "(ffprobe filepath = ProbeRaised \<longrightarrow> get_duration ffprobe py_float filepath = 1320)
   \<and> (\<forall>out. ffprobe filepath = ProbeOutput out \<and> py_float (strip out) = None \<longrightarrow>
          get_duration ffprobe py_float filepath = 1320)
   \<and> (\<forall>out v. ffprobe filepath = ProbeOutput out \<and> py_float (strip out) = Some v \<longrightarrow>
          get_duration ffprobe py_float filepath = v)
   \<and> (\<forall>e. probe_duration ffprobe py_float filepath = Inl e \<longrightarrow>
          get_duration ffprobe py_float filepath = 1320)"
  by (simp add: get_duration_def probe_duration_def)

text \<open>
  The three cases: a probe that raises, output that is not a number, and a number.
\<close>

theorem get_duration_never_raises_witness:
  "probe_table [] ''x.mp4'' = ProbeRaised
   \<and> get_duration (probe_table []) Map.empty ''x.mp4'' = 1320
   \<and> probe_table [(''y.mp4'', ''N/A\<newline>'')] ''y.mp4'' = ProbeOutput ''N/A\<newline>''
   \<and> (Map.empty :: string \<Rightarrow> rat option) (strip ''N/A\<newline>'') = None
   \<and> get_duration (probe_table [(''y.mp4'', ''N/A\<newline>'')]) Map.empty ''y.mp4'' = 1320
   \<and> probe_table [(''z.mp4'', ''1320.520000\<newline>'')] ''z.mp4'' = ProbeOutput ''1320.520000\<newline>''
   \<and> map_of [(''1320.520000'', 33013 / 25 :: rat)] (strip ''1320.520000\<newline>'') = Some (33013 / 25)
   \<and> get_duration (probe_table [(''z.mp4'', ''1320.520000\<newline>'')])
        (map_of [(''1320.520000'', 33013 / 25)]) ''z.mp4'' = 33013 / 25"
proof -
  have a: "probe_table [] ''x.mp4'' = ProbeRaised" by (simp add: probe_table_def)
  have b: "probe_table [(''y.mp4'', ''N/A\<newline>'')] ''y.mp4'' = ProbeOutput ''N/A\<newline>''"
    by (simp add: probe_table_def)
  have c: "(Map.empty :: string \<Rightarrow> rat option) (strip ''N/A\<newline>'') = None" by simp
  have d: "probe_table [(''z.mp4'', ''1320.520000\<newline>'')] ''z.mp4'' = ProbeOutput ''1320.520000\<newline>''"
    by (simp add: probe_table_def)
  have e: "map_of [(''1320.520000'', 33013 / 25 :: rat)] (strip ''1320.520000\<newline>'') = Some (33013 / 25)"
    by (simp add: strip_def is_space_def)
  show ?thesis
    using a b c d e
      get_duration_never_raises[of "probe_table []" "''x.mp4''" Map.empty]
      get_duration_never_raises[of "probe_table [(''y.mp4'', ''N/A\<newline>'')]" "''y.mp4''" Map.empty]
      get_duration_never_raises[of "probe_table [(''z.mp4'', ''1320.520000\<newline>'')]" "''z.mp4''"
        "map_of [(''1320.520000'', 33013 / 25)]"]
    by blast
qed
subsection \<open>An empty source folder\<close>

lemma get_channel_files_empty:
  assumes "fs (ch_path channel) = None \<or>
           (\<exists>entries. fs (ch_path channel) = Some entries \<and> filter is_video entries = [])"
  shows "get_channel_files fs channel = []"
proof -
  have "filter is_video (sort entries) = []" if "filter is_video entries = []" for entries
    using that by (simp add: filter_empty_conv)
  with assms show ?thesis by (auto simp: get_channel_files_def)
qed

lemma ordered_files_empty:
  "get_channel_files fs channel = [] \<Longrightarrow> ordered_files L fs channel G = ([], G)"
  by (simp add: ordered_files_def stable_shuffle_def shuffle_def)

lemma build_playlist_empty:
  "get_channel_files fs channel = [] \<Longrightarrow> build_playlist L fs channel G = ([], G)"
  by (simp add: build_playlist_steps ordered_files_empty)

lemma build_playlists_other:
  "k \<notin> ch_id ` set CHANNELS \<Longrightarrow> fst (build_playlists L fs CHANNELS P G) k = P k"
  by (induction CHANNELS arbitrary: P G) (auto split: prod.splits)

lemma build_playlists_lookup:
  "channel \<in> set CHANNELS \<Longrightarrow> distinct (map ch_id CHANNELS) \<Longrightarrow>
     \<exists>G'. fst (build_playlists L fs CHANNELS P G) (ch_id channel) =
            Some (fst (build_playlist L fs channel G'))"
proof (induction CHANNELS arbitrary: P G)
  case Nil
  then show ?case by simp
next
  case (Cons ch chs)
  obtain playlist G1 where b: "build_playlist L fs ch G = (playlist, G1)"
    by (cases "build_playlist L fs ch G")
  show ?case
  proof (cases "channel = ch")
    case True
    have "ch_id ch \<notin> ch_id ` set chs" using Cons.prems(2) by simp
    then have "fst (build_playlists L fs chs (P(ch_id ch \<mapsto> playlist)) G1) (ch_id ch) =
               (P(ch_id ch \<mapsto> playlist)) (ch_id ch)"
      by (rule build_playlists_other)
    then show ?thesis using True b by (intro exI[of _ G]) simp
  next
    case False
    then have "channel \<in> set chs" using Cons.prems(1) by simp
    moreover have "distinct (map ch_id chs)" using Cons.prems(2) by simp
    ultimately obtain G' where
      "fst (build_playlists L fs chs (P(ch_id ch \<mapsto> playlist)) G1) (ch_id channel) =
         Some (fst (build_playlist L fs channel G'))"
      using Cons.IH by blast
    then show ?thesis using b by (intro exI[of _ G']) simp
  qed
qed

lemma get_now_playing_empty:
  "PLAYLISTS (ch_id channel) = Some [] \<Longrightarrow>
     get_now_playing PLAYLISTS ffprobe py_float channel now now' = Inr (None, 0, None, None)"
  by (simp add: get_now_playing_def)

text \<open>
  Claim C9. For a channel whose folder is missing or holds no video file, the scan is
  empty, \<^verbatim>\<open>build_playlist\<close> returns the empty playlist for every value of the
  \<^verbatim>\<open>commercials\<close> key, and, after the start-up loop over channels with distinct
  identifiers, \<^verbatim>\<open>get_now_playing\<close> returns the nothing-playing tuple.
\<close>

theorem empty_source_nothing_playing:
  assumes "fs (ch_path channel) = None \<or>
           (\<exists>entries. fs (ch_path channel) = Some entries \<and> filter is_video entries = [])"
    and "channel \<in> set CHANNELS" and "distinct (map ch_id CHANNELS)"
  shows "get_channel_files fs channel = []
       \<and> (\<forall>c. build_playlist L fs (channel\<lparr>ch_commercials := c\<rparr>) G = ([], G))
       \<and> build_playlist L fs channel G = ([], G)
       \<and> get_now_playing (fst (build_playlists L fs CHANNELS Map.empty G0)) ffprobe py_float
            channel now now' = Inr (None, 0, None, None)"
proof -
  have e: "get_channel_files fs channel = []" using assms(1) by (rule get_channel_files_empty)
  have b: "build_playlist L fs channel G' = ([], G')" for G'
    using e by (rule build_playlist_empty)
  have c: "build_playlist L fs (channel\<lparr>ch_commercials := c\<rparr>) G = ([], G)" for c
    using e by (intro build_playlist_empty) simp
  obtain G' where "fst (build_playlists L fs CHANNELS Map.empty G0) (ch_id channel) =
      Some (fst (build_playlist L fs channel G'))"
    using build_playlists_lookup[OF assms(2,3), of L fs Map.empty G0] by blast
  then have "fst (build_playlists L fs CHANNELS Map.empty G0) (ch_id channel) = Some []"
    by (simp add: b)
  then have "get_now_playing (fst (build_playlists L fs CHANNELS Map.empty G0)) ffprobe py_float
            channel now now' = Inr (None, 0, None, None)"
    by (rule get_now_playing_empty)
  then show ?thesis using e b c by simp
qed

text \<open>
  The theorem at a channel whose folder does not exist, built at start-up beside a
  channel that has files.
\<close>

theorem empty_source_nothing_playing_witness:
  "(demo_fs (ch_path (toons\<lparr>ch_id := ''gone'', ch_path := ''media/gone''\<rparr>)) = None \<or>
     (\<exists>entries. demo_fs (ch_path (toons\<lparr>ch_id := ''gone'', ch_path := ''media/gone''\<rparr>)) = Some entries
        \<and> filter is_video entries = []))
   \<and> toons\<lparr>ch_id := ''gone'', ch_path := ''media/gone''\<rparr>
        \<in> set [toons\<lparr>ch_commercials := None\<rparr>, toons\<lparr>ch_id := ''gone'', ch_path := ''media/gone''\<rparr>]
   \<and> distinct (map ch_id [toons\<lparr>ch_commercials := None\<rparr>, toons\<lparr>ch_id := ''gone'', ch_path := ''media/gone''\<rparr>])
   \<and> get_channel_files demo_fs (toons\<lparr>ch_id := ''gone'', ch_path := ''media/gone''\<rparr>) = []
   \<and> (\<forall>c. build_playlist counter_lib demo_fs
             (toons\<lparr>ch_id := ''gone'', ch_path := ''media/gone''\<rparr>\<lparr>ch_commercials := c\<rparr>) 1 = ([], 1))
   \<and> build_playlist counter_lib demo_fs (toons\<lparr>ch_id := ''gone'', ch_path := ''media/gone''\<rparr>) 1 = ([], 1)
   \<and> get_now_playing
        (fst (build_playlists counter_lib demo_fs
               [toons\<lparr>ch_commercials := None\<rparr>, toons\<lparr>ch_id := ''gone'', ch_path := ''media/gone''\<rparr>]
               Map.empty 1))
        (probe_table []) Map.empty (toons\<lparr>ch_id := ''gone'', ch_path := ''media/gone''\<rparr>)
        (START_TIME + 1400) (START_TIME + 1400) = Inr (None, 0, None, None)"
proof -
  have h1: "demo_fs (ch_path (toons\<lparr>ch_id := ''gone'', ch_path := ''media/gone''\<rparr>)) = None \<or>
     (\<exists>entries. demo_fs (ch_path (toons\<lparr>ch_id := ''gone'', ch_path := ''media/gone''\<rparr>)) = Some entries
        \<and> filter is_video entries = [])"
    by (simp add: demo_fs_def)
  have h2: "toons\<lparr>ch_id := ''gone'', ch_path := ''media/gone''\<rparr>
        \<in> set [toons\<lparr>ch_commercials := None\<rparr>, toons\<lparr>ch_id := ''gone'', ch_path := ''media/gone''\<rparr>]"
    by simp
  have h3: "distinct (map ch_id [toons\<lparr>ch_commercials := None\<rparr>, toons\<lparr>ch_id := ''gone'', ch_path := ''media/gone''\<rparr>])"
    by (simp add: toons_def)
  note t = empty_source_nothing_playing[of demo_fs
      "toons\<lparr>ch_id := ''gone'', ch_path := ''media/gone''\<rparr>"
      "[toons\<lparr>ch_commercials := None\<rparr>, toons\<lparr>ch_id := ''gone'', ch_path := ''media/gone''\<rparr>]"
      counter_lib 1 1 "probe_table []" Map.empty "START_TIME + 1400" "START_TIME + 1400",
      OF h1 h2 h3]
  show ?thesis using h1 h2 h3 t by blast
qed
subsection \<open>The default of the commercials key\<close>



end
